theory Spec2Isabelle
  imports Main "HOL-Library.AList" "HOL-Library.Sublist"
begin

section \<open>JSON values\<close>

text \<open>
  \<^verbatim>\<open>JsonValue\<close> of \<^verbatim>\<open>src/types\<close>: null, boolean, number, string, array of values,
  object. The program never inspects a number (it only asks \<^verbatim>\<open>typeof\<close>), so the type
  of numbers is a parameter. An object is the list of its own entries in the order
  \<^verbatim>\<open>Object.entries\<close> gives them; a JavaScript object has every key once, which
  \<open>wf_json\<close> states.
\<close>

datatype 'n json =
    JNull
  | JBool bool
  | JNum 'n
  | JStr string
  | JArr "'n json list"
  | JObj "(string \<times> 'n json) list"

fun wf_json :: "'n json \<Rightarrow> bool" where
  "wf_json (JArr xs) = list_all wf_json xs"
| "wf_json (JObj kvs) = (distinct (map fst kvs) \<and> list_all (\<lambda>(k, v). wf_json v) kvs)"
| "wf_json _ = True"

text \<open>\<^verbatim>\<open>Array.isArray(v)\<close>.\<close>

fun isArray :: "'n json \<Rightarrow> bool" where
  "isArray (JArr xs) = True"
| "isArray _ = False"

text \<open>\<^verbatim>\<open>typeof v === "object"\<close>: true of null, of arrays and of objects.\<close>

fun typeof_object :: "'n json \<Rightarrow> bool" where
  "typeof_object JNull = True"
| "typeof_object (JArr xs) = True"
| "typeof_object (JObj kvs) = True"
| "typeof_object _ = False"

text \<open>Property read \<^verbatim>\<open>o.k\<close> on a plain object: \<open>None\<close> is \<^verbatim>\<open>undefined\<close>.\<close>

definition prop_of :: "(string \<times> 'n json) list \<Rightarrow> string \<Rightarrow> 'n json option" where
  "prop_of kvs k = map_of kvs k"

text \<open>\<^verbatim>\<open>k in o\<close> and \<^verbatim>\<open>Reflect.has(o, k)\<close> on a plain object.\<close>

definition has_key :: "(string \<times> 'n json) list \<Rightarrow> string \<Rightarrow> bool" where
  "has_key kvs k = (k \<in> set (map fst kvs))"

section \<open>TypeMapper: \<^verbatim>\<open>bsonToTs\<close> and \<^verbatim>\<open>buildTsType\<close>\<close>

definition bsonToTs :: "(string \<times> string) list" where
  "bsonToTs =
     [(''number'', ''number''),
      (''string'', ''string''),
      (''bool'', ''boolean''),
      (''date'', ''Date''),
      (''null'', ''null''),
      (''decimal'', ''Decimal128'')]"

text \<open>
  \<^verbatim>\<open>Array.prototype.join(sep)\<close> on an array of strings and nulls: a null element is
  rendered as the empty string, the separator stands between every two elements.
\<close>

fun js_string :: "string option \<Rightarrow> string" where
  "js_string None = []"
| "js_string (Some s) = s"

fun join :: "string \<Rightarrow> string option list \<Rightarrow> string" where
  "join sep [] = []"
| "join sep [x] = js_string x"
| "join sep (x # y # ys) = js_string x @ sep @ join sep (y # ys)"

text \<open>\<^verbatim>\<open>x || null\<close> on a string or undefined: the empty string is falsy.\<close>

fun or_null :: "string option \<Rightarrow> string option" where
  "or_null None = None"
| "or_null (Some s) = (if s = [] then None else Some s)"

text \<open>\<^verbatim>\<open>buildTsType\<close> on a defined argument; \<open>None\<close> is \<^verbatim>\<open>null\<close>.\<close>

fun buildTsType :: "'n json \<Rightarrow> string option" where
  "buildTsType (JArr xs) = Some (join ''|'' (map (\<lambda>e. buildTsType e) xs))"
| "buildTsType (JStr s) = or_null (map_of bsonToTs s)"
| "buildTsType _ = None"

text \<open>
  \<^verbatim>\<open>buildTsType(bsonType?)\<close>: the argument may be \<^verbatim>\<open>undefined\<close>, which is neither an
  array nor a string.
\<close>

fun buildTsType_arg :: "'n json option \<Rightarrow> string option" where
  "buildTsType_arg None = None"
| "buildTsType_arg (Some v) = buildTsType v"

section \<open>SchemaAnnotator: \<^verbatim>\<open>addTsType\<close>\<close>

text \<open>
  Setting a property on an object, as the spreads \<^verbatim>\<open>{ ...schema, tsType }\<close> and
  \<^verbatim>\<open>{ ...acc, [key]: x }\<close> do on their copies, is \<open>AList.update\<close>: an existing key
  keeps its place and takes the new value, a new key goes last.
\<close>

lemma set_update_subset: "set (AList.update k v al) \<subseteq> insert (k, v) (set al)"
  by (induction al) auto

lemma size_entry_less: "(k, v) \<in> set kvs \<Longrightarrow> size v < size (JObj kvs)"
  by (induction kvs) auto

lemma size_hint_less: "kvs \<noteq> [] \<Longrightarrow> size (JStr t :: 'n json) < size (JObj kvs :: 'n json)"
  by (cases kvs) auto

lemma size_elem_less: "x \<in> set xs \<Longrightarrow> size x < size (JArr xs)"
  by (induction xs) auto

function addTsType :: "'n json \<Rightarrow> 'n json" where
  "addTsType (JArr xs) = JArr (map addTsType xs)"
| "addTsType (JObj kvs) =
     (let bsonType = (if has_key kvs ''bsonType'' then prop_of kvs ''bsonType'' else None);
          isEnum = has_key kvs ''enum'';
          tsType = buildTsType_arg bsonType;
          v = (case tsType of
                 None \<Rightarrow> kvs
               | Some t \<Rightarrow>
                   if \<not> isEnum \<and> t \<noteq> [] then AList.update ''tsType'' (JStr t) kvs
                   else kvs)
      in JObj (foldl (\<lambda>acc (key, val). AList.update key (addTsType val) acc) [] v))"
| "addTsType JNull = JNull"
| "addTsType (JBool b) = JBool b"
| "addTsType (JNum n) = JNum n"
| "addTsType (JStr s) = JStr s"
  by pat_completeness auto
termination
proof (relation "measure size", goal_cases)
  case 1
  show ?case by simp
next
  case (2 xs x)
  then show ?case using size_elem_less by simp
next
  case (3 kvs b isEnum tsType v acc e key y)
  show ?case
  proof (cases "(key, y) \<in> set kvs")
    case True
    then show ?thesis using size_entry_less by simp
  next
    case False
    with 3 obtain t where t: "tsType = Some t" "v = AList.update ''tsType'' (JStr t) kvs"
      by (auto split: option.splits if_splits)
    with 3 False have y: "y = JStr t"
      using set_update_subset [of "''tsType''" "JStr t" kvs] by auto
    from 3 t have "kvs \<noteq> []"
      by (auto simp: has_key_def split: if_splits)
    then show ?thesis using y size_hint_less by simp
  qed
qed

text \<open>
  The object \<^verbatim>\<open>v\<close> that \<^verbatim>\<open>addTsType\<close> builds before it recurses: the node itself, or
  the node with \<^verbatim>\<open>tsType\<close> set when the node is no enum and the hint is truthy.
\<close>

definition hinted :: "(string \<times> 'n json) list \<Rightarrow> (string \<times> 'n json) list" where
  "hinted kvs =
     (case buildTsType_arg (if has_key kvs ''bsonType'' then prop_of kvs ''bsonType'' else None) of
        None \<Rightarrow> kvs
      | Some t \<Rightarrow>
          if \<not> has_key kvs ''enum'' \<and> t \<noteq> [] then AList.update ''tsType'' (JStr t) kvs
          else kvs)"

section \<open>DependencyDetector: \<^verbatim>\<open>hasDecimal128\<close>\<close>

text \<open>\<^verbatim>\<open>a.includes(s)\<close> for a string \<open>s\<close>, on a value known to be an array.\<close>

fun includes_str :: "'n json \<Rightarrow> string \<Rightarrow> bool" where
  "includes_str (JArr xs) s = (JStr s \<in> set xs)"
| "includes_str _ s = False"

fun hasDecimal128 :: "'n json \<Rightarrow> bool" where
  "hasDecimal128 (JArr xs) = list_ex hasDecimal128 xs"
| "hasDecimal128 (JObj kvs) =
     list_ex (\<lambda>(key, val).
        if key = ''bsonType'' \<and> val = JStr ''decimal'' then True
        else if key = ''bsonType'' \<and> isArray val then includes_str val ''decimal''
        else if typeof_object val then hasDecimal128 val
        else False) kvs"
| "hasDecimal128 _ = False"

section \<open>CompileOrchestrator: \<^verbatim>\<open>compileBSON\<close>\<close>

text \<open>
  The values an option of \<^verbatim>\<open>DEFAULT_OPTIONS\<close> takes: an array of lines, a boolean, a
  string, null, and an object, whose content this module never reads.
\<close>

datatype optval = OLines "string list" | OBool bool | OText string | ONull | OObject

type_synonym opts = "(string \<times> optval) list"

text \<open>\<^verbatim>\<open>{ ...target, ...src }\<close>: every own property of \<open>src\<close> is set on a copy of \<open>target\<close>.\<close>

definition spread :: "opts \<Rightarrow> opts \<Rightarrow> opts" where
  "spread target src = foldl (\<lambda>acc (k, v). AList.update k v acc) target src"

text \<open>\<^verbatim>\<open>DEFAULT_OPTIONS\<close>; \<open>cwd\<close> is what \<^verbatim>\<open>process.cwd()\<close> returned when the module loaded.\<close>

definition DEFAULT_OPTIONS :: "string \<Rightarrow> opts" where
  "DEFAULT_OPTIONS cwd =
     [(''$refOptions'', OObject),
      (''bannerComment'', OLines
         [''/* eslint-disable */'',
          ''/* tslint:disable */'',
          ''/**'',
          ''* This file was automatically generated by bson-schema-to-typescript.'',
          ''* DO NOT MODIFY IT BY HAND. Instead, modify the source JSONSchema file,'',
          ''* and run bson-schema-to-typescript to regenerate this file.'',
          ''*/'']),
      (''cwd'', OText cwd),
      (''declareExternallyReferenced'', OBool True),
      (''enableConstEnums'', OBool True),
      (''ignoreMinAndMaxItems'', OBool False),
      (''strictIndexSignatures'', OBool False),
      (''style'', ONull),
      (''unreachableDefinitions'', OBool False),
      (''unknownAny'', OBool True)]"

definition import_line :: string where
  "import_line = ''import { Decimal128 } from 'bson';''"

definition newline :: string where
  "newline = [CHR 0x0A]"

text \<open>
  \<^verbatim>\<open>compileBSON(schema, options?)\<close>, with the external compiler \<^verbatim>\<open>compileJSON\<close> as a
  parameter; the result is what the external compiler returns on the arguments it is
  given. \<open>options = None\<close> is the omitted argument. The declared type makes
  \<^verbatim>\<open>bannerComment\<close> an array of strings; on any other value the spread
  \<^verbatim>\<open>[...mergedOptions.bannerComment, ...imports]\<close> is outside that type and the model
  gives \<open>None\<close>.
\<close>

definition compileBSON ::
  "('n json \<Rightarrow> string \<Rightarrow> opts \<Rightarrow> 'r) \<Rightarrow> string \<Rightarrow> 'n json \<Rightarrow> opts option \<Rightarrow> 'r option" where
  "compileBSON compileJSON cwd schema options =
     (let newSchema = addTsType schema;
          mergedOptions = spread (DEFAULT_OPTIONS cwd) (case options of None \<Rightarrow> [] | Some os \<Rightarrow> os);
          imports = (if hasDecimal128 schema then [import_line] else [])
      in case map_of mergedOptions ''bannerComment'' of
           Some (OLines ls) \<Rightarrow>
             Some (compileJSON newSchema []
               (AList.update ''bannerComment''
                  (OText (join newline (map Some (ls @ imports)))) mergedOptions))
         | _ \<Rightarrow> None)"

section \<open>Configuration: \<^verbatim>\<open>parseConfig\<close>\<close>

record env_names =
  MONGODB_URI :: string
  MONGODB_DATABASE :: string

record Options =
  bannerComment :: "string list"
  enableConstEnums :: bool
  ignoreMinAndMaxItems :: bool
  strictIndexSignatures :: bool
  unknownAny :: bool
  path :: string
  env :: env_names

definition defaultOptions :: Options where
  "defaultOptions =
     \<lparr>bannerComment =
        [''/* eslint-disable */'',
         ''/* tslint:disable */'',
         ''/**'',
         ''* This file was automatically generated by bson-schema-to-typescript.'',
         ''* DO NOT MODIFY IT BY HAND. Instead, modify the source JSONSchema file,'',
         ''* and run bson-schema-to-typescript to regenerate this file.'',
         ''*/''],
      enableConstEnums = True,
      ignoreMinAndMaxItems = False,
      strictIndexSignatures = False,
      unknownAny = True,
      path = ''src/__generated__'',
      env = \<lparr>MONGODB_URI = ''MONGODB_URI'', MONGODB_DATABASE = ''MONGODB_DATABASE''\<rparr>\<rparr>"

text \<open>\<^verbatim>\<open>typeof v === "string"\<close> and \<^verbatim>\<open>typeof v === "boolean"\<close>, on a property read.\<close>

fun is_string :: "'n json \<Rightarrow> bool" where
  "is_string (JStr s) = True"
| "is_string _ = False"

fun string_or :: "'n json option \<Rightarrow> string \<Rightarrow> string" where
  "string_or (Some (JStr s)) d = s"
| "string_or _ d = d"

fun boolean_or :: "'n json option \<Rightarrow> bool \<Rightarrow> bool" where
  "boolean_or (Some (JBool b)) d = b"
| "boolean_or _ d = d"

text \<open>
  The \<^verbatim>\<open>bannerComment\<close> field: an array all of whose elements are strings is taken
  as it is, anything else gives the default.
\<close>

fun the_string :: "'n json \<Rightarrow> string" where
  "the_string (JStr s) = s"
| "the_string _ = []"

fun lines_or :: "'n json option \<Rightarrow> string list \<Rightarrow> string list" where
  "lines_or (Some (JArr xs)) d = (if list_all is_string xs then map the_string xs else d)"
| "lines_or _ d = d"

fun env_or :: "'n json option \<Rightarrow> env_names \<Rightarrow> env_names" where
  "env_or (Some (JObj e)) d =
     \<lparr>MONGODB_URI = string_or (prop_of e ''MONGODB_URI'') (MONGODB_URI d),
      MONGODB_DATABASE = string_or (prop_of e ''MONGODB_DATABASE'') (MONGODB_DATABASE d)\<rparr>"
| "env_or _ d = d"

text \<open>
  \<^verbatim>\<open>parseConfig(config)\<close>, with \<^verbatim>\<open>JSON.parse\<close> as the parameter \<open>parse\<close>; \<open>None\<close> is
  the \<^verbatim>\<open>SyntaxError\<close> it throws. Both that error and the one the function throws
  itself on a value that is not a plain object are caught, and the defaults returned.
\<close>

definition parseConfig :: "(string \<Rightarrow> 'n json option) \<Rightarrow> string \<Rightarrow> Options" where
  "parseConfig parse config =
     (case parse config of
        None \<Rightarrow> defaultOptions
      | Some (JObj options) \<Rightarrow>
          \<lparr>bannerComment = lines_or (prop_of options ''bannerComment'') (bannerComment defaultOptions),
           enableConstEnums =
             boolean_or (prop_of options ''enableConstEnums'') (enableConstEnums defaultOptions),
           ignoreMinAndMaxItems =
             boolean_or (prop_of options ''ignoreMinAndMaxItems'') (ignoreMinAndMaxItems defaultOptions),
           strictIndexSignatures =
             boolean_or (prop_of options ''strictIndexSignatures'') (strictIndexSignatures defaultOptions),
           unknownAny = boolean_or (prop_of options ''unknownAny'') (unknownAny defaultOptions),
           path = string_or (prop_of options ''path'') (path defaultOptions),
           env = env_or (prop_of options ''env'') (env defaultOptions)\<rparr>
      | Some _ \<Rightarrow> defaultOptions)"

text \<open>The test \<^verbatim>\<open>hasDecimal128\<close> makes on one entry of an object.\<close>

definition entry_hit :: "string \<times> 'n json \<Rightarrow> bool" where
  "entry_hit = (\<lambda>(key, val).
        if key = ''bsonType'' \<and> val = JStr ''decimal'' then True
        else if key = ''bsonType'' \<and> isArray val then includes_str val ''decimal''
        else if typeof_object val then hasDecimal128 val
        else False)"

section \<open>The notions the properties are stated with\<close>

text \<open>
  An object node is marked when it has a \<^verbatim>\<open>bsonType\<close> key whose value equals
  \<open>decimal\<close> or is an array containing \<open>decimal\<close>.
\<close>

fun decimal_marked :: "'n json \<Rightarrow> bool" where
  "decimal_marked (JObj kvs) =
     list_ex (\<lambda>(k, v). k = ''bsonType'' \<and> (v = JStr ''decimal'' \<or> includes_str v ''decimal'')) kvs"
| "decimal_marked _ = False"

text \<open>
  The nodes of a tree: the tree itself and every node reached through object values and
  array elements, at any depth.
\<close>

fun nodes :: "'n json \<Rightarrow> 'n json list" where
  "nodes (JArr xs) = JArr xs # concat (map nodes xs)"
| "nodes (JObj kvs) = JObj kvs # concat (map (\<lambda>(k, v). nodes v) kvs)"
| "nodes s = [s]"

text \<open>The same, except that an array held under a \<^verbatim>\<open>bsonType\<close> key is not entered.\<close>

fun scanned :: "'n json \<Rightarrow> 'n json list" where
  "scanned (JArr xs) = JArr xs # concat (map scanned xs)"
| "scanned (JObj kvs) =
     JObj kvs # concat (map (\<lambda>(k, v). if k = ''bsonType'' \<and> isArray v then [] else scanned v) kvs)"
| "scanned s = [s]"

text \<open>
  No value held under a \<^verbatim>\<open>tsType\<close> key, at any object node of the tree, makes the
  detector fire.
\<close>

fun tsType_inert :: "'n json \<Rightarrow> bool" where
  "tsType_inert (JArr xs) = list_all tsType_inert xs"
| "tsType_inert (JObj kvs) =
     list_all (\<lambda>(k, v). (if k = ''tsType'' then \<not> hasDecimal128 v else True) \<and> tsType_inert v) kvs"
| "tsType_inert _ = True"

text \<open>A hint mentions the target type when \<open>Decimal128\<close> occurs in it.\<close>

definition mentions_Decimal128 :: "string option \<Rightarrow> bool" where
  "mentions_Decimal128 h = (case h of None \<Rightarrow> False | Some t \<Rightarrow> sublist ''Decimal128'' t)"

text \<open>A marker that is a scalar, or an array none of whose elements is an array.\<close>

fun flat_marker :: "'n json \<Rightarrow> bool" where
  "flat_marker (JObj kvs) = False"
| "flat_marker (JArr xs) = list_all (\<lambda>e. \<not> isArray e) xs"
| "flat_marker _ = True"

text \<open>
  The lines of the merged \<^verbatim>\<open>bannerComment\<close> are \<open>ls\<close>: the caller's array of lines, or
  the default one when the caller gives none.
\<close>

definition banner_lines :: "string \<Rightarrow> opts \<Rightarrow> string list \<Rightarrow> bool" where
  "banner_lines cwd os ls =
     (case map_of os ''bannerComment'' of
        None \<Rightarrow> map_of (DEFAULT_OPTIONS cwd) ''bannerComment'' = Some (OLines ls)
      | Some v \<Rightarrow> v = OLines ls)"

fun plain_object :: "'n json \<Rightarrow> bool" where
  "plain_object (JObj kvs) = True"
| "plain_object _ = False"

section \<open>Auxiliary facts\<close>

lemma update_fresh: "k \<notin> set (map fst al) \<Longrightarrow> AList.update k v al = al @ [(k, v)]"
  by (induction al) auto

text \<open>On an object, whose keys are distinct, the \<^verbatim>\<open>reduce\<close> rebuilds the entries in order.\<close>

lemma foldl_update_distinct:
  "distinct (map fst (acc @ kvs)) \<Longrightarrow>
   foldl (\<lambda>a (k, v). AList.update k (f v) a) acc kvs = acc @ map (\<lambda>(k, v). (k, f v)) kvs"
proof (induction kvs arbitrary: acc)
  case Nil
  then show ?case by simp
next
  case (Cons p kvs)
  obtain k v where p: "p = (k, v)" by (cases p)
  from Cons.prems p have fresh: "k \<notin> set (map fst acc)" by auto
  from Cons.prems p have "distinct (map fst ((acc @ [(k, f v)]) @ kvs))" by auto
  from Cons.IH [OF this] show ?case using p fresh by (simp add: update_fresh)
qed

lemma distinct_hinted: "distinct (map fst kvs) \<Longrightarrow> distinct (map fst (hinted kvs))"
  by (simp add: hinted_def distinct_update split: option.splits)

lemma addTsType_obj:
  assumes "distinct (map fst kvs)"
  shows "addTsType (JObj kvs) = JObj (map (\<lambda>(k, v). (k, addTsType v)) (hinted kvs))"
proof -
  have "distinct (map fst ([] @ hinted kvs))" using assms by (simp add: distinct_hinted)
  from foldl_update_distinct [OF this, of addTsType]
  show ?thesis by (simp add: hinted_def Let_def)
qed

lemma hinted_enum: "has_key kvs ''enum'' \<Longrightarrow> hinted kvs = kvs"
  by (simp add: hinted_def split: option.splits)

lemma hinted_cases:
  "hinted kvs = kvs \<or>
   (\<not> has_key kvs ''enum'' \<and> (\<exists>t. t \<noteq> [] \<and> hinted kvs = AList.update ''tsType'' (JStr t) kvs))"
  by (auto simp: hinted_def split: option.splits)

lemma buildTsType_ill_typed: "\<not> is_string b \<Longrightarrow> \<not> isArray b \<Longrightarrow> buildTsType b = None"
  by (cases b) auto

lemma prop_of_has_key: "prop_of kvs k = Some v \<Longrightarrow> has_key kvs k"
  by (auto simp: prop_of_def has_key_def dest: map_of_SomeD intro: rev_image_eqI)

lemma prop_of_map_annot:
  "prop_of (map (\<lambda>(k, v). (k, f v)) kvs) k = map_option f (prop_of kvs k)"
  by (induction kvs) (auto simp: prop_of_def)

lemma has_key_map_annot: "has_key (map (\<lambda>(k, v). (k, f v)) kvs) k = has_key kvs k"
  by (induction kvs) (auto simp: has_key_def)

lemma prop_of_update: "prop_of (AList.update h x kvs) k = (if k = h then Some x else prop_of kvs k)"
  by (simp add: prop_of_def update_conv')

lemma has_key_update: "has_key (AList.update h x kvs) k = (k = h \<or> has_key kvs k)"
  by (induction kvs) (auto simp: has_key_def)

section \<open>TypeMapper on arrays\<close>

lemma buildTsType_union_order:
  "buildTsType (JArr [JStr ''string'', JStr ''bool''] :: int json) = Some ''string|boolean''"
  by (simp add: bsonToTs_def)

text \<open>
  C1. The claim: on an array marker, \<^verbatim>\<open>buildTsType\<close> maps each element, drops the
  elements with no mapping and joins the rest with \<open>|\<close> in input order, so that
  \<open>["number", "bogus"]\<close> gives \<open>number\<close>. The code joins the mapped array as it is, and
  \<^verbatim>\<open>join\<close> renders the \<^verbatim>\<open>null\<close> of an unmapped element as an empty string: the unmapped
  element keeps its place and its separator, and \<open>["number", "bogus"]\<close> gives
  \<open>number|\<close>.
\<close>

theorem buildTsType_keeps_unmapped_slot:
  "buildTsType (JArr [JStr ''number'', JStr ''bogus''] :: int json) = Some ''number|''"
  by (simp add: bsonToTs_def)

section \<open>SchemaAnnotator\<close>

text \<open>
  C2. The claim: an object node whose marker maps entirely to unknown type names gets no
  \<^verbatim>\<open>tsType\<close> key. The code holds it for a scalar marker and for an array of at most one
  element, where the hint is \<^verbatim>\<open>null\<close> or empty and the truthiness guard stops it. On
  an array of two unknown names the hint is the separator alone, which is truthy, and
  the node gets the key \<^verbatim>\<open>tsType\<close> with the value \<open>|\<close>.
\<close>

theorem addTsType_injects_degenerate_hint:
  "addTsType (JObj [(''bsonType'', JArr [JStr ''bogus'', JStr ''other''])] :: int json)
   = JObj [(''bsonType'', JArr [JStr ''bogus'', JStr ''other'']), (''tsType'', JStr ''|'')]"
  by (simp add: bsonToTs_def has_key_def prop_of_def)

lemma addTsType_scalar_unknown:
  "addTsType (JObj [(''bsonType'', JStr ''bogus'')] :: int json) = JObj [(''bsonType'', JStr ''bogus'')]"
  by (simp add: bsonToTs_def has_key_def prop_of_def)

text \<open>
  C4. Annotation is additive. On a well-formed tree, an array is annotated element by
  element, a scalar is returned as it is, and an object node \<open>kvs\<close> becomes an object
  \<open>out\<close> in which every key other than \<^verbatim>\<open>tsType\<close> holds the annotated value it held in
  \<open>kvs\<close> (and is absent if it was absent), every key of \<open>kvs\<close> is present, the only key
  that can be new is \<^verbatim>\<open>tsType\<close>, the key \<^verbatim>\<open>tsType\<close> either holds the annotated value it
  held or, on a node with no \<^verbatim>\<open>enum\<close> key, a non-empty hint string, and a node with an
  \<^verbatim>\<open>enum\<close> key is exactly its annotated entries. Since the values of the output are the
  annotations of the values of the input, the same holds at every depth.
\<close>

theorem addTsType_additive:
  assumes "wf_json s"
  shows "case s of
           JArr xs \<Rightarrow> addTsType s = JArr (map addTsType xs)
         | JObj kvs \<Rightarrow>
             (\<exists>out. addTsType s = JObj out
                \<and> (\<forall>k. k \<noteq> ''tsType'' \<longrightarrow> prop_of out k = map_option addTsType (prop_of kvs k))
                \<and> (\<forall>k. has_key kvs k \<longrightarrow> has_key out k)
                \<and> (\<forall>k. has_key out k \<longrightarrow> has_key kvs k \<or> k = ''tsType'')
                \<and> (prop_of out ''tsType'' = map_option addTsType (prop_of kvs ''tsType'')
                    \<or> (\<not> has_key kvs ''enum'' \<and> (\<exists>t. t \<noteq> [] \<and> prop_of out ''tsType'' = Some (JStr t))))
                \<and> (has_key kvs ''enum'' \<longrightarrow> out = map (\<lambda>(k, v). (k, addTsType v)) kvs))
         | _ \<Rightarrow> addTsType s = s"
proof (cases s)
  case (JObj kvs)
  with assms have d: "distinct (map fst kvs)" by simp
  let ?out = "map (\<lambda>(k, v). (k, addTsType v)) (hinted kvs)"
  have eq: "addTsType s = JObj ?out"
    using d JObj by (simp add: addTsType_obj del: addTsType.simps)
  from hinted_cases [of kvs]
  have "(\<forall>k. k \<noteq> ''tsType'' \<longrightarrow> prop_of ?out k = map_option addTsType (prop_of kvs k))
        \<and> (\<forall>k. has_key kvs k \<longrightarrow> has_key ?out k)
        \<and> (\<forall>k. has_key ?out k \<longrightarrow> has_key kvs k \<or> k = ''tsType'')
        \<and> (prop_of ?out ''tsType'' = map_option addTsType (prop_of kvs ''tsType'')
            \<or> (\<not> has_key kvs ''enum'' \<and> (\<exists>t. t \<noteq> [] \<and> prop_of ?out ''tsType'' = Some (JStr t))))
        \<and> (has_key kvs ''enum'' \<longrightarrow> ?out = map (\<lambda>(k, v). (k, addTsType v)) kvs)"
  proof
    assume "hinted kvs = kvs"
    then show ?thesis by (auto simp: prop_of_map_annot has_key_map_annot)
  next
    assume "\<not> has_key kvs ''enum'' \<and> (\<exists>t. t \<noteq> [] \<and> hinted kvs = AList.update ''tsType'' (JStr t) kvs)"
    then obtain t where t: "\<not> has_key kvs ''enum''" "t \<noteq> []"
      "hinted kvs = AList.update ''tsType'' (JStr t) kvs" by blast
    show ?thesis unfolding t(3)
      using t(1,2) by (auto simp: prop_of_map_annot has_key_map_annot prop_of_update has_key_update)
  qed
  with eq JObj show ?thesis by auto
qed simp_all

theorem addTsType_additive_witness:
  "wf_json (JObj [(''bsonType'', JStr ''date''), (''title'', JStr ''when'')] :: int json)
   \<and> (\<exists>out. addTsType (JObj [(''bsonType'', JStr ''date''), (''title'', JStr ''when'')] :: int json)
               = JObj out
        \<and> prop_of out ''bsonType'' = Some (JStr ''date'')
        \<and> prop_of out ''title'' = Some (JStr ''when'')
        \<and> prop_of out ''tsType'' = Some (JStr ''Date''))"
proof -
  let ?s = "JObj [(''bsonType'', JStr ''date''), (''title'', JStr ''when'')] :: int json"
  have wf: "wf_json ?s" by simp
  from addTsType_additive [OF wf] wf show ?thesis
    by (simp add: prop_of_def has_key_def bsonToTs_def)
qed

text \<open>
  C5. An object node that has the key \<^verbatim>\<open>enum\<close>, whatever the value under it and whatever
  its marker maps to, is returned with exactly its own keys, each holding the annotated
  value: no \<^verbatim>\<open>tsType\<close> is attached, and a \<^verbatim>\<open>tsType\<close> it already had is not overwritten.
\<close>

theorem enum_node_gets_no_hint:
  assumes "distinct (map fst kvs)" and "has_key kvs ''enum''"
  shows "addTsType (JObj kvs) = JObj (map (\<lambda>(k, v). (k, addTsType v)) kvs)"
  using assms by (simp add: addTsType_obj hinted_enum del: addTsType.simps)

theorem enum_node_gets_no_hint_witness:
  "addTsType (JObj [(''bsonType'', JStr ''number''), (''enum'', JArr [JNum 1, JNum 2, JNum (3::int)])])
   = JObj [(''bsonType'', JStr ''number''), (''enum'', JArr [JNum 1, JNum 2, JNum 3])]"
  using enum_node_gets_no_hint
    [of "[(''bsonType'', JStr ''number''), (''enum'', JArr [JNum 1, JNum 2, JNum (3::int)])]"]
  by (simp add: has_key_def)

text \<open>
  C10. An object node whose \<^verbatim>\<open>bsonType\<close> value is neither a string nor an array gets the
  hint \<^verbatim>\<open>null\<close> from \<^verbatim>\<open>buildTsType\<close>; \<^verbatim>\<open>addTsType\<close> returns the node with exactly its own
  keys, each holding the annotated value. The functions are total, so there is no
  failure to exclude.
\<close>

theorem ill_typed_marker_no_hint:
  assumes "distinct (map fst kvs)" and "prop_of kvs ''bsonType'' = Some b"
    and "\<not> is_string b" and "\<not> isArray b"
  shows "buildTsType b = None \<and>
         addTsType (JObj kvs) = JObj (map (\<lambda>(k, v). (k, addTsType v)) kvs)"
proof -
  have none: "buildTsType b = None" using assms(3,4) by (rule buildTsType_ill_typed)
  have "has_key kvs ''bsonType''" using assms(2) by (rule prop_of_has_key)
  then have "hinted kvs = kvs" using assms(2) none by (simp add: hinted_def)
  then show ?thesis using none assms(1) by (simp add: addTsType_obj del: addTsType.simps)
qed

theorem ill_typed_marker_no_hint_witness:
  "buildTsType (JNum (7::int)) = None \<and>
   addTsType (JObj [(''bsonType'', JNum (7::int)), (''items'', JObj [(''bsonType'', JStr ''date'')])])
   = JObj [(''bsonType'', JNum 7),
           (''items'', JObj [(''bsonType'', JStr ''date''), (''tsType'', JStr ''Date'')])]"
  using ill_typed_marker_no_hint
    [of "[(''bsonType'', JNum (7::int)), (''items'', JObj [(''bsonType'', JStr ''date'')])]" "JNum 7"]
  by (simp add: prop_of_def has_key_def bsonToTs_def)

section \<open>Detection and annotation\<close>

lemma hasDecimal128_obj: "hasDecimal128 (JObj kvs) = list_ex entry_hit kvs"
  by (simp add: entry_hit_def)

lemma addTsType_eq_JStr [simp]: "addTsType v = JStr d \<longleftrightarrow> v = JStr d"
  by (cases v) (auto simp: Let_def)

lemma isArray_addTsType [simp]: "isArray (addTsType v) = isArray v"
  by (cases v) (auto simp: Let_def)

lemma typeof_object_addTsType [simp]: "typeof_object (addTsType v) = typeof_object v"
  by (cases v) (auto simp: Let_def)

lemma JStr_eq_addTsType [simp]: "JStr d = addTsType v \<longleftrightarrow> v = JStr d"
  by (cases v) (auto simp: Let_def)

lemma includes_str_addTsType [simp]: "includes_str (addTsType v) d = includes_str v d"
  by (cases v) (auto simp: Let_def image_iff)

lemma entry_hit_hint: "\<not> entry_hit (''tsType'', JStr t)"
  by (simp add: entry_hit_def)

lemma entry_hit_tsType: "entry_hit (''tsType'', v) = hasDecimal128 v"
  by (cases v) (simp_all add: entry_hit_def)

lemma list_ex_update_hint:
  "list_ex entry_hit (AList.update ''tsType'' (JStr t) kvs) \<Longrightarrow> list_ex entry_hit kvs"
  by (induction kvs) (auto simp: entry_hit_hint split: if_splits)

lemma list_ex_update_hint_inert:
  "list_all (\<lambda>(k, v). if k = ''tsType'' then \<not> hasDecimal128 v else True) kvs \<Longrightarrow>
   list_ex entry_hit (AList.update ''tsType'' (JStr t) kvs) = list_ex entry_hit kvs"
  by (induction kvs) (auto simp: entry_hit_hint entry_hit_tsType)

lemma entry_hit_annot:
  "hasDecimal128 (addTsType v) = hasDecimal128 v \<Longrightarrow> entry_hit (k, addTsType v) = entry_hit (k, v)"
  by (simp add: entry_hit_def)

lemma entry_hit_annot_imp:
  "(hasDecimal128 (addTsType v) \<Longrightarrow> hasDecimal128 v) \<Longrightarrow> entry_hit (k, addTsType v) \<Longrightarrow> entry_hit (k, v)"
  by (auto simp: entry_hit_def split: if_splits)

lemma hit_map:
  assumes "\<And>k v. (k, v) \<in> set kvs \<Longrightarrow> hasDecimal128 (addTsType v) = hasDecimal128 v"
  shows "list_ex entry_hit (map (\<lambda>(k, v). (k, addTsType v)) kvs) = list_ex entry_hit kvs"
  using assms
proof (induction kvs)
  case Nil
  then show ?case by simp
next
  case (Cons p kvs)
  obtain k v where p: "p = (k, v)" by (cases p)
  have hd: "entry_hit (k, addTsType v) = entry_hit (k, v)"
    using Cons.prems [of k v] p by (simp add: entry_hit_annot)
  have tl: "list_ex entry_hit (map (\<lambda>(k, v). (k, addTsType v)) kvs) = list_ex entry_hit kvs"
    using Cons.prems by (intro Cons.IH) auto
  show ?case using p hd tl by simp
qed

lemma hit_map_imp:
  assumes "\<And>k v. (k, v) \<in> set kvs \<Longrightarrow> hasDecimal128 (addTsType v) \<Longrightarrow> hasDecimal128 v"
    and "list_ex entry_hit (map (\<lambda>(k, v). (k, addTsType v)) kvs)"
  shows "list_ex entry_hit kvs"
proof -
  from assms(2) obtain k v where kv: "(k, v) \<in> set kvs" "entry_hit (k, addTsType v)"
    by (auto simp: list_ex_iff)
  have "entry_hit (k, v)" using assms(1) [OF kv(1)] kv(2) by (rule entry_hit_annot_imp)
  with kv(1) show ?thesis by (auto simp: list_ex_iff)
qed

lemma hinted_entries:
  assumes "(k, v) \<in> set (hinted kvs)"
  shows "(k, v) \<in> set kvs \<or> (\<exists>t. v = JStr t)"
proof -
  from hinted_cases [of kvs] show ?thesis
  proof
    assume "hinted kvs = kvs"
    with assms show ?thesis by simp
  next
    assume "\<not> has_key kvs ''enum'' \<and> (\<exists>t. t \<noteq> [] \<and> hinted kvs = AList.update ''tsType'' (JStr t) kvs)"
    then obtain t where "hinted kvs = AList.update ''tsType'' (JStr t) kvs" by blast
    with assms set_update_subset [of "''tsType''" "JStr t" kvs]
    have "(k, v) \<in> insert (''tsType'', JStr t) (set kvs)" by auto
    then show ?thesis by auto
  qed
qed

lemma hasDecimal128_addTsType_imp:
  "wf_json s \<Longrightarrow> hasDecimal128 (addTsType s) \<Longrightarrow> hasDecimal128 s"
proof (induction s)
  case (JArr xs)
  then show ?case by (auto simp: list_ex_iff list_all_iff)
next
  case (JObj kvs)
  from JObj.prems have d: "distinct (map fst kvs)" by simp
  have sub: "hasDecimal128 v" if "(k, v) \<in> set (hinted kvs)" "hasDecimal128 (addTsType v)" for k v
  proof -
    from hinted_entries [OF that(1)] show ?thesis
    proof
      assume kv: "(k, v) \<in> set kvs"
      with JObj.prems(1) have "wf_json v" by (auto simp: list_all_iff)
      with JObj.IH [of "(k, v)" v] kv that(2) show ?thesis by auto
    next
      assume "\<exists>t. v = JStr t"
      with that(2) show ?thesis by auto
    qed
  qed
  have "list_ex entry_hit (map (\<lambda>(k, v). (k, addTsType v)) (hinted kvs))"
    using JObj.prems(2) d
    by (simp add: addTsType_obj hasDecimal128_obj del: addTsType.simps hasDecimal128.simps)
  then have "list_ex entry_hit (hinted kvs)" using sub by (rule hit_map_imp [rotated]) 
  then have "list_ex entry_hit kvs"
    using hinted_cases [of kvs] by (auto dest: list_ex_update_hint)
  then show ?case by (simp only: hasDecimal128_obj)
qed simp_all

lemma hasDecimal128_addTsType_inert:
  "wf_json s \<Longrightarrow> tsType_inert s \<Longrightarrow> hasDecimal128 (addTsType s) = hasDecimal128 s"
proof (induction s)
  case (JArr xs)
  then show ?case by (auto simp: list_ex_iff list_all_iff)
next
  case (JObj kvs)
  from JObj.prems have d: "distinct (map fst kvs)" by simp
  have sub: "hasDecimal128 (addTsType v) = hasDecimal128 v" if "(k, v) \<in> set (hinted kvs)" for k v
  proof -
    from hinted_entries [OF that(1)] show ?thesis
    proof
      assume kv: "(k, v) \<in> set kvs"
      with JObj.prems have "wf_json v" "tsType_inert v" by (auto simp: list_all_iff)
      with JObj.IH [of "(k, v)" v] kv show ?thesis by auto
    next
      assume "\<exists>t. v = JStr t"
      then show ?thesis by auto
    qed
  qed
  have inert: "list_all (\<lambda>(k, v). if k = ''tsType'' then \<not> hasDecimal128 v else True) kvs"
    using JObj.prems(2) by (auto simp: list_all_iff)
  have "hasDecimal128 (addTsType (JObj kvs))
        = list_ex entry_hit (map (\<lambda>(k, v). (k, addTsType v)) (hinted kvs))"
    using d by (simp add: addTsType_obj hasDecimal128_obj del: addTsType.simps hasDecimal128.simps)
  also have "\<dots> = list_ex entry_hit (hinted kvs)" using sub by (rule hit_map)
  also have "\<dots> = list_ex entry_hit kvs"
    using hinted_cases [of kvs] inert by (auto simp: list_ex_update_hint_inert)
  finally show ?case by (simp only: hasDecimal128_obj)
qed simp_all

text \<open>
  As stated, C7 fails: annotation overwrites a \<^verbatim>\<open>tsType\<close> key the node already has, and
  the value it replaces may hold a marker. On
  \<open>{bsonType: "string", tsType: {bsonType: "decimal"}}\<close> the detector fires, and on its
  annotation \<open>{bsonType: "string", tsType: "string"}\<close> it does not.
\<close>

theorem detection_commutes_counterexample:
  "wf_json (JObj [(''bsonType'', JStr ''string''), (''tsType'', JObj [(''bsonType'', JStr ''decimal'')])] :: int json)
   \<and> hasDecimal128 (JObj [(''bsonType'', JStr ''string''), (''tsType'', JObj [(''bsonType'', JStr ''decimal'')])] :: int json)
   \<and> \<not> hasDecimal128 (addTsType (JObj [(''bsonType'', JStr ''string''), (''tsType'', JObj [(''bsonType'', JStr ''decimal'')])] :: int json))"
  by (simp add: has_key_def prop_of_def bsonToTs_def)

text \<open>
  C7, amended. On a well-formed tree, if the detector fires on the annotated tree then it
  fires on the tree; and when no value held under a \<^verbatim>\<open>tsType\<close> key of the tree makes
  the detector fire (in particular when the tree has no \<^verbatim>\<open>tsType\<close> key, or only strings
  under them), \<^verbatim>\<open>hasDecimal128(addTsType(s))\<close> equals \<^verbatim>\<open>hasDecimal128(s)\<close>.
\<close>

theorem detection_commutes_when_inert:
  assumes "wf_json s"
  shows "(hasDecimal128 (addTsType s) \<longrightarrow> hasDecimal128 s)
       \<and> (tsType_inert s \<longrightarrow> hasDecimal128 (addTsType s) = hasDecimal128 s)"
  using assms hasDecimal128_addTsType_imp hasDecimal128_addTsType_inert by blast

theorem detection_commutes_when_inert_witness:
  "wf_json (JObj [(''properties'', JObj [(''amt'', JObj [(''bsonType'', JStr ''decimal'')])])] :: int json)
   \<and> tsType_inert (JObj [(''properties'', JObj [(''amt'', JObj [(''bsonType'', JStr ''decimal'')])])] :: int json)
   \<and> hasDecimal128 (addTsType (JObj [(''properties'', JObj [(''amt'', JObj [(''bsonType'', JStr ''decimal'')])])] :: int json))
   \<and> hasDecimal128 (JObj [(''properties'', JObj [(''amt'', JObj [(''bsonType'', JStr ''decimal'')])])] :: int json)"
proof -
  let ?s = "JObj [(''properties'', JObj [(''amt'', JObj [(''bsonType'', JStr ''decimal'')])])] :: int json"
  have wf: "wf_json ?s" by simp
  have inert: "tsType_inert ?s" by simp
  have hit: "hasDecimal128 (addTsType ?s)" by (simp add: has_key_def prop_of_def bsonToTs_def)
  from detection_commutes_when_inert [OF wf] wf inert hit show ?thesis by blast
qed


section \<open>DependencyDetector\<close>

lemma list_ex_concat_map: "list_ex P (concat (map f xs)) = list_ex (\<lambda>x. list_ex P (f x)) xs"
  by (induction xs) auto

lemma entry_hit_split:
  "entry_hit (k, v) =
     ((k = ''bsonType'' \<and> (v = JStr ''decimal'' \<or> includes_str v ''decimal''))
      \<or> (\<not> (k = ''bsonType'' \<and> isArray v) \<and> hasDecimal128 v))"
  by (cases v) (auto simp: entry_hit_def)

lemma entry_hit_scanned:
  assumes "hasDecimal128 v = list_ex decimal_marked (scanned v)"
  shows "entry_hit (k, v) =
     ((k = ''bsonType'' \<and> (v = JStr ''decimal'' \<or> includes_str v ''decimal''))
      \<or> list_ex decimal_marked (if k = ''bsonType'' \<and> isArray v then [] else scanned v))"
  using assms by (simp add: entry_hit_split)

lemma list_ex_disj:
  assumes "\<And>x. x \<in> set xs \<Longrightarrow> P x = (M x \<or> S x)"
  shows "list_ex P xs = (list_ex M xs \<or> list_ex S xs)"
  using assms by (induction xs) auto

lemma obj_hit_scanned:
  assumes "\<And>k v. (k, v) \<in> set kvs \<Longrightarrow> hasDecimal128 v = list_ex decimal_marked (scanned v)"
  shows "list_ex entry_hit kvs =
     (list_ex (\<lambda>(k, v). k = ''bsonType'' \<and> (v = JStr ''decimal'' \<or> includes_str v ''decimal'')) kvs
      \<or> list_ex (\<lambda>(k, v). list_ex decimal_marked
            (if k = ''bsonType'' \<and> isArray v then [] else scanned v)) kvs)"
proof (rule list_ex_disj)
  fix p assume p: "p \<in> set kvs"
  obtain k v where kv: "p = (k, v)" by (cases p)
  from assms [of k v] p kv
  have "hasDecimal128 v = list_ex decimal_marked (scanned v)" by simp
  from entry_hit_scanned [OF this, of k]
  show "entry_hit p =
     ((case p of (k, v) \<Rightarrow> k = ''bsonType'' \<and> (v = JStr ''decimal'' \<or> includes_str v ''decimal''))
      \<or> (case p of (k, v) \<Rightarrow> list_ex decimal_marked
            (if k = ''bsonType'' \<and> isArray v then [] else scanned v)))"
    unfolding kv case_prod_conv .
qed

lemma hasDecimal128_scanned: "hasDecimal128 s = list_ex decimal_marked (scanned s)"
proof (induction s)
  case (JArr xs)
  then show ?case by (simp add: list_ex_concat_map list_ex_iff)
next
  case (JObj kvs)
  have "hasDecimal128 v = list_ex decimal_marked (scanned v)" if "(k, v) \<in> set kvs" for k v
    using JObj.IH [of "(k, v)" v] that by auto
  from obj_hit_scanned [OF this]
  show ?case
    by (simp add: hasDecimal128_obj list_ex_concat_map case_prod_unfold del: hasDecimal128.simps)
qed simp_all

lemma set_concat_mono:
  assumes "\<And>x. x \<in> set xs \<Longrightarrow> set (f x) \<subseteq> set (g x)"
  shows "set (concat (map f xs)) \<subseteq> set (concat (map g xs))"
  using assms by (induction xs) auto

lemma set_scanned_nodes: "set (scanned s) \<subseteq> set (nodes s)"
proof (induction s)
  case (JArr xs)
  have "set (concat (map scanned xs)) \<subseteq> set (concat (map nodes xs))"
    using JArr.IH by (intro set_concat_mono)
  then show ?case unfolding scanned.simps nodes.simps list.set by (rule insert_mono)
next
  case (JObj kvs)
  have "set ((\<lambda>(k, v). if k = ''bsonType'' \<and> isArray v then [] else scanned v) p)
        \<subseteq> set ((\<lambda>(k, v). nodes v) p)" if "p \<in> set kvs" for p
  proof -
    obtain k v where p: "p = (k, v)" by (cases p)
    from JObj.IH [of p v] that p have "set (scanned v) \<subseteq> set (nodes v)" by auto
    then show ?thesis using p by auto
  qed
  then have "set (concat (map (\<lambda>(k, v). if k = ''bsonType'' \<and> isArray v then [] else scanned v) kvs))
        \<subseteq> set (concat (map (\<lambda>(k, v). nodes v) kvs))"
    by (intro set_concat_mono)
  then show ?case unfolding scanned.simps nodes.simps list.set by (rule insert_mono)
qed simp_all

text \<open>
  As stated, C6 fails: \<^verbatim>\<open>hasDecimal128\<close> does not enter an array held under a
  \<^verbatim>\<open>bsonType\<close> key, it only asks whether the array includes \<open>decimal\<close>. In
  \<open>{bsonType: [{bsonType: "decimal"}]}\<close> the inner object is reached through an object value
  and an array element and is marked, and the detector returns false.
\<close>

theorem hasDecimal128_reachable_counterexample:
  "list_ex decimal_marked (nodes (JObj [(''bsonType'', JArr [JObj [(''bsonType'', JStr ''decimal'')]])] :: int json))
   \<and> \<not> hasDecimal128 (JObj [(''bsonType'', JArr [JObj [(''bsonType'', JStr ''decimal'')]])] :: int json)"
  by simp

text \<open>
  C6, amended. \<^verbatim>\<open>hasDecimal128\<close> returns true if and only if some node reached through
  object values and array elements, an array held under a \<^verbatim>\<open>bsonType\<close> key not being
  entered, is an object with a \<^verbatim>\<open>bsonType\<close> key whose value equals \<open>decimal\<close> or is an
  array containing \<open>decimal\<close>. When it returns true some reachable node is marked, and
  on null and on every scalar it returns false.
\<close>

theorem hasDecimal128_scanned_iff:
  "(hasDecimal128 s \<longleftrightarrow> list_ex decimal_marked (scanned s))
   \<and> (hasDecimal128 s \<longrightarrow> list_ex decimal_marked (nodes s))
   \<and> (s = JNull \<or> \<not> typeof_object s \<longrightarrow> \<not> hasDecimal128 s)"
proof -
  have a: "hasDecimal128 s \<longleftrightarrow> list_ex decimal_marked (scanned s)" by (rule hasDecimal128_scanned)
  have b: "list_ex decimal_marked (nodes s)" if "hasDecimal128 s"
    using that a set_scanned_nodes [of s] by (auto simp: list_ex_iff)
  have c: "\<not> hasDecimal128 s" if "s = JNull \<or> \<not> typeof_object s"
    using that by (cases s) auto
  from a b c show ?thesis by blast
qed


theorem hasDecimal128_scanned_iff_witness:
  "hasDecimal128 (JObj [(''properties'', JObj [(''amt'',
       JObj [(''bsonType'', JArr [JStr ''decimal'', JStr ''null'']), (''enum'', JArr [])])])] :: int json)
   \<and> list_ex decimal_marked (nodes (JObj [(''properties'', JObj [(''amt'',
       JObj [(''bsonType'', JArr [JStr ''decimal'', JStr ''null'']), (''enum'', JArr [])])])] :: int json))
   \<and> \<not> typeof_object (JStr ''decimal'' :: int json)
   \<and> \<not> hasDecimal128 (JStr ''decimal'' :: int json)"
proof -
  let ?s = "JObj [(''properties'', JObj [(''amt'',
       JObj [(''bsonType'', JArr [JStr ''decimal'', JStr ''null'']), (''enum'', JArr [])])])] :: int json"
  have hit: "hasDecimal128 ?s" by simp
  have scalar: "\<not> typeof_object (JStr ''decimal'' :: int json)" by simp
  from hasDecimal128_scanned_iff [of ?s] hasDecimal128_scanned_iff [of "JStr ''decimal'' :: int json"]
    hit scalar
  show ?thesis by blast
qed

section \<open>TypeMapper and DependencyDetector\<close>

lemma sublist_across:
  assumes "c \<notin> set d"
  shows "sublist d (a @ c # b) \<longleftrightarrow> sublist d a \<or> sublist d b"
  using assms
  by (auto simp: sublist_append sublist_Cons_right prefix_Cons suffix_def)

lemma sublist_join:
  assumes "c \<notin> set d" and "d \<noteq> []"
  shows "sublist d (join [c] ys) \<longleftrightarrow> (\<exists>y\<in>set ys. sublist d (js_string y))"
  using assms by (induction "[c]" ys rule: join.induct) (auto simp: sublist_across)

lemma mapped_name_mentions:
  "map_of bsonToTs s = Some t \<Longrightarrow> sublist ''Decimal128'' t \<longleftrightarrow> s = ''decimal''"
  by (auto simp: bsonToTs_def sublist_code(3) prefix_Cons split: if_splits)

lemma name_mentions:
  "sublist ''Decimal128'' (js_string (or_null (map_of bsonToTs s))) \<longleftrightarrow> s = ''decimal''"
proof (cases "map_of bsonToTs s")
  case None
  then have "s \<noteq> ''decimal''" by (auto simp: bsonToTs_def)
  with None show ?thesis by simp
next
  case (Some t)
  then have "t \<noteq> []" by (auto simp: bsonToTs_def split: if_splits)
  with Some mapped_name_mentions [OF Some] show ?thesis by simp
qed

lemma element_mentions:
  "\<not> isArray e \<Longrightarrow> sublist ''Decimal128'' (js_string (buildTsType e)) \<longleftrightarrow> e = JStr ''decimal''"
  by (cases e) (simp_all add: name_mentions)

lemma mentions_js_string: "mentions_Decimal128 h \<longleftrightarrow> sublist ''Decimal128'' (js_string h)"
  by (cases h) (simp_all add: mentions_Decimal128_def)

text \<open>
  As stated, C3 fails: \<^verbatim>\<open>buildTsType\<close> maps the elements of an array with itself and so
  enters nested arrays, while \<^verbatim>\<open>hasDecimal128\<close> asks \<^verbatim>\<open>includes\<close> of the marker array
  only. On the marker \<open>[["decimal"]]\<close> the hint is \<open>Decimal128\<close> and the detector
  returns false on \<open>{bsonType: [["decimal"]]}\<close>.
\<close>

theorem hint_detector_agree_counterexample:
  "mentions_Decimal128 (buildTsType (JArr [JArr [JStr ''decimal'']] :: int json))
   \<and> \<not> hasDecimal128 (JObj [(''bsonType'', JArr [JArr [JStr ''decimal'']])] :: int json)"
  by (simp add: mentions_Decimal128_def bsonToTs_def)

text \<open>
  C3, amended. For every marker that is a scalar or an array none of whose elements is
  an array (so for every string and every array of strings), the hint of
  \<^verbatim>\<open>buildTsType\<close> mentions \<open>Decimal128\<close> if and only if \<^verbatim>\<open>hasDecimal128\<close> returns true on
  the object that has the marker under \<^verbatim>\<open>bsonType\<close>.
\<close>

theorem hint_detector_agree_flat:
  assumes "flat_marker v"
  shows "mentions_Decimal128 (buildTsType v) \<longleftrightarrow> hasDecimal128 (JObj [(''bsonType'', v)])"
proof (cases v)
  case (JStr s)
  then show ?thesis by (simp add: mentions_js_string name_mentions)
next
  case (JArr xs)
  with assms have flat: "\<forall>e\<in>set xs. \<not> isArray e" by (simp add: list_all_iff)
  have "sublist ''Decimal128'' (join ''|'' (map buildTsType xs))
        \<longleftrightarrow> (\<exists>y\<in>set (map buildTsType xs). sublist ''Decimal128'' (js_string y))"
    by (rule sublist_join) simp_all
  also have "\<dots> \<longleftrightarrow> (\<exists>e\<in>set xs. e = JStr ''decimal'')"
    using flat by (auto simp: element_mentions)
  finally show ?thesis using JArr by (simp add: mentions_Decimal128_def)
next
  case (JObj kvs)
  with assms show ?thesis by simp
qed (simp_all add: mentions_Decimal128_def)

theorem hint_detector_agree_flat_witness:
  "flat_marker (JArr [JStr ''string'', JStr ''decimal''] :: int json)
   \<and> mentions_Decimal128 (buildTsType (JArr [JStr ''string'', JStr ''decimal''] :: int json))
   \<and> hasDecimal128 (JObj [(''bsonType'', JArr [JStr ''string'', JStr ''decimal''])] :: int json)"
proof -
  have flat: "flat_marker (JArr [JStr ''string'', JStr ''decimal''] :: int json)" by simp
  have hit: "hasDecimal128 (JObj [(''bsonType'', JArr [JStr ''string'', JStr ''decimal''])] :: int json)"
    by simp
  from hint_detector_agree_flat [OF flat] flat hit show ?thesis by blast
qed


section \<open>CompileOrchestrator\<close>

lemma map_of_spread:
  "distinct (map fst os) \<Longrightarrow>
   map_of (spread t os) k = (case map_of os k of Some v \<Rightarrow> Some v | None \<Rightarrow> map_of t k)"
proof (induction os arbitrary: t)
  case Nil
  then show ?case by (simp add: spread_def)
next
  case (Cons p os)
  obtain k' v' where p: "p = (k', v')" by (cases p)
  from Cons.prems p have fresh: "map_of os k' = None" and d: "distinct (map fst os)"
    by (auto simp: map_of_eq_None_iff)
  have "spread t (p # os) = spread (AList.update k' v' t) os" by (simp add: spread_def p)
  with Cons.IH [OF d, of "AList.update k' v' t"] fresh p show ?case
    by (auto simp: update_conv' split: option.splits)
qed

text \<open>
  C8. Let the caller's options be an object (its keys distinct) whose \<^verbatim>\<open>bannerComment\<close>,
  if it has one, is an array of lines, as the declared type says; an omitted argument
  counts as the empty object. Then \<^verbatim>\<open>compileBSON\<close> calls the external compiler on the
  annotated schema, the empty name and an options object in which every key of the
  caller's options other than \<^verbatim>\<open>bannerComment\<close> holds the caller's value, every other
  key other than \<^verbatim>\<open>bannerComment\<close> holds what the defaults hold, and \<^verbatim>\<open>bannerComment\<close> is
  one string: the merged lines (the caller's if given, else the default ones), followed
  by the one import line exactly when \<^verbatim>\<open>hasDecimal128(schema)\<close>, joined with newlines.
\<close>

theorem compileBSON_merge_banner:
  assumes "distinct (map fst os)"
    and "os = (case options of None \<Rightarrow> [] | Some x \<Rightarrow> x)"
    and "banner_lines cwd os ls"
  shows "\<exists>passed.
           compileBSON compileJSON cwd schema options = Some (compileJSON (addTsType schema) [] passed)
         \<and> map_of passed ''bannerComment''
             = Some (OText (join newline
                 (map Some (ls @ (if hasDecimal128 schema then [import_line] else [])))))
         \<and> (\<forall>k v. k \<noteq> ''bannerComment'' \<and> map_of os k = Some v \<longrightarrow> map_of passed k = Some v)
         \<and> (\<forall>k. k \<noteq> ''bannerComment'' \<and> map_of os k = None
                \<longrightarrow> map_of passed k = map_of (DEFAULT_OPTIONS cwd) k)"
proof -
  let ?merged = "spread (DEFAULT_OPTIONS cwd) os"
  let ?banner = "OText (join newline (map Some (ls @ (if hasDecimal128 schema then [import_line] else []))))"
  have m: "map_of ?merged k = (case map_of os k of Some v \<Rightarrow> Some v | None \<Rightarrow> map_of (DEFAULT_OPTIONS cwd) k)" for k
    using assms(1) by (rule map_of_spread)
  have b: "map_of ?merged ''bannerComment'' = Some (OLines ls)"
    using assms(3) unfolding m banner_lines_def by (simp split: option.splits)
  have "compileBSON compileJSON cwd schema options
        = Some (compileJSON (addTsType schema) [] (AList.update ''bannerComment'' ?banner ?merged))"
    using b assms(2) by (simp add: compileBSON_def Let_def)
  moreover have "map_of (AList.update ''bannerComment'' ?banner ?merged) ''bannerComment'' = Some ?banner"
    by (simp add: update_conv')
  moreover have "map_of (AList.update ''bannerComment'' ?banner ?merged) k = Some v"
    if "k \<noteq> ''bannerComment''" "map_of os k = Some v" for k v
    using that by (simp add: update_conv' m)
  moreover have "map_of (AList.update ''bannerComment'' ?banner ?merged) k = map_of (DEFAULT_OPTIONS cwd) k"
    if "k \<noteq> ''bannerComment''" "map_of os k = None" for k
    using that by (simp add: update_conv' m)
  ultimately show ?thesis by blast
qed

theorem compileBSON_merge_banner_witness:
  "compileBSON (\<lambda>s n os. (s, n, os)) ''/tmp'' (JObj [(''bsonType'', JStr ''decimal'')] :: int json)
     (Some [(''unknownAny'', OBool False), (''bannerComment'', OLines [''// a''])])
   = Some (JObj [(''bsonType'', JStr ''decimal''), (''tsType'', JStr ''Decimal128'')], [],
       [(''$refOptions'', OObject),
        (''bannerComment'', OText (''// a'' @ newline @ import_line)),
        (''cwd'', OText ''/tmp''),
        (''declareExternallyReferenced'', OBool True),
        (''enableConstEnums'', OBool True),
        (''ignoreMinAndMaxItems'', OBool False),
        (''strictIndexSignatures'', OBool False),
        (''style'', ONull),
        (''unreachableDefinitions'', OBool False),
        (''unknownAny'', OBool False)])"
proof -
  let ?os = "[(''unknownAny'', OBool False), (''bannerComment'', OLines [''// a''])]"
  have d: "distinct (map fst ?os)" by simp
  have o: "?os = (case Some ?os of None \<Rightarrow> [] | Some x \<Rightarrow> x)" by simp
  have bl: "banner_lines ''/tmp'' ?os [''// a'']" by (simp add: banner_lines_def)
  from compileBSON_merge_banner [OF d o bl, of "\<lambda>s n os. (s, n, os)"
      "JObj [(''bsonType'', JStr ''decimal'')] :: int json"]
  show ?thesis
    by (simp add: compileBSON_def spread_def DEFAULT_OPTIONS_def has_key_def prop_of_def
        bsonToTs_def Let_def)
qed


section \<open>Configuration\<close>

lemma string_or_wrong: "(\<forall>s. x \<noteq> Some (JStr s)) \<Longrightarrow> string_or x d = d"
  by (cases "(x, d)" rule: string_or.cases) auto

lemma boolean_or_wrong: "(\<forall>b. x \<noteq> Some (JBool b)) \<Longrightarrow> boolean_or x d = d"
  by (cases "(x, d)" rule: boolean_or.cases) auto

lemma all_strings: "list_all is_string xs \<Longrightarrow> xs = map JStr (map the_string xs)"
  by (induction xs) (auto elim: is_string.elims)

lemma strings_all: "list_all is_string (map JStr ls)"
  by (simp add: list_all_iff)

lemma the_string_JStr: "map (the_string \<circ> JStr) ls = ls"
  by (simp add: comp_def)

lemma lines_or_wrong: "(\<forall>ls. x \<noteq> Some (JArr (map JStr ls))) \<Longrightarrow> lines_or x d = d"
proof (cases "(x, d)" rule: lines_or.cases)
  case (1 xs d')
  assume no: "\<forall>ls. x \<noteq> Some (JArr (map JStr ls))"
  have "\<not> list_all is_string xs"
  proof
    assume "list_all is_string xs"
    from all_strings [OF this] have "xs = map JStr (map the_string xs)" .
    with 1 no show False by blast
  qed
  with 1 show ?thesis by simp
qed auto

lemma env_or_wrong: "(\<forall>e. x \<noteq> Some (JObj e)) \<Longrightarrow> env_or x d = d"
  by (cases "(x, d)" rule: env_or.cases) auto

lemma parseConfig_obj:
  "parse config = Some (JObj options) \<Longrightarrow>
   parseConfig parse config =
     \<lparr>bannerComment = lines_or (prop_of options ''bannerComment'') (bannerComment defaultOptions),
      enableConstEnums =
        boolean_or (prop_of options ''enableConstEnums'') (enableConstEnums defaultOptions),
      ignoreMinAndMaxItems =
        boolean_or (prop_of options ''ignoreMinAndMaxItems'') (ignoreMinAndMaxItems defaultOptions),
      strictIndexSignatures =
        boolean_or (prop_of options ''strictIndexSignatures'') (strictIndexSignatures defaultOptions),
      unknownAny = boolean_or (prop_of options ''unknownAny'') (unknownAny defaultOptions),
      path = string_or (prop_of options ''path'') (path defaultOptions),
      env = env_or (prop_of options ''env'') (env defaultOptions)\<rparr>"
  by (simp add: parseConfig_def)

text \<open>
  C9. \<^verbatim>\<open>parseConfig\<close> returns an \<open>Options\<close> value on every input. When the input is not
  valid JSON, or parses to a value that is not a plain object, the value is the full
  default. When it parses to a plain object, each field is settled on its own: a
  \<^verbatim>\<open>bannerComment\<close> that is an array of strings, a boolean flag, a string \<^verbatim>\<open>path\<close> is
  taken from the file, and a field that is absent or of another type takes its
  default; \<^verbatim>\<open>env\<close> takes its default unless it is a plain object, and then each of its
  two names is a string from the file or else its default.
\<close>

theorem parseConfig_field_by_field:
  "(parse config = None \<longrightarrow> parseConfig parse config = defaultOptions)
   \<and> (\<forall>v. parse config = Some v \<and> \<not> plain_object v \<longrightarrow> parseConfig parse config = defaultOptions)
   \<and> (\<forall>kvs. parse config = Some (JObj kvs) \<longrightarrow>
        (\<forall>ls. prop_of kvs ''bannerComment'' = Some (JArr (map JStr ls))
               \<longrightarrow> bannerComment (parseConfig parse config) = ls)
      \<and> ((\<forall>ls. prop_of kvs ''bannerComment'' \<noteq> Some (JArr (map JStr ls)))
               \<longrightarrow> bannerComment (parseConfig parse config) = bannerComment defaultOptions)
      \<and> (\<forall>b. prop_of kvs ''enableConstEnums'' = Some (JBool b)
               \<longrightarrow> enableConstEnums (parseConfig parse config) = b)
      \<and> ((\<forall>b. prop_of kvs ''enableConstEnums'' \<noteq> Some (JBool b))
               \<longrightarrow> enableConstEnums (parseConfig parse config) = enableConstEnums defaultOptions)
      \<and> (\<forall>b. prop_of kvs ''ignoreMinAndMaxItems'' = Some (JBool b)
               \<longrightarrow> ignoreMinAndMaxItems (parseConfig parse config) = b)
      \<and> ((\<forall>b. prop_of kvs ''ignoreMinAndMaxItems'' \<noteq> Some (JBool b))
               \<longrightarrow> ignoreMinAndMaxItems (parseConfig parse config) = ignoreMinAndMaxItems defaultOptions)
      \<and> (\<forall>b. prop_of kvs ''strictIndexSignatures'' = Some (JBool b)
               \<longrightarrow> strictIndexSignatures (parseConfig parse config) = b)
      \<and> ((\<forall>b. prop_of kvs ''strictIndexSignatures'' \<noteq> Some (JBool b))
               \<longrightarrow> strictIndexSignatures (parseConfig parse config) = strictIndexSignatures defaultOptions)
      \<and> (\<forall>b. prop_of kvs ''unknownAny'' = Some (JBool b)
               \<longrightarrow> unknownAny (parseConfig parse config) = b)
      \<and> ((\<forall>b. prop_of kvs ''unknownAny'' \<noteq> Some (JBool b))
               \<longrightarrow> unknownAny (parseConfig parse config) = unknownAny defaultOptions)
      \<and> (\<forall>p. prop_of kvs ''path'' = Some (JStr p) \<longrightarrow> path (parseConfig parse config) = p)
      \<and> ((\<forall>p. prop_of kvs ''path'' \<noteq> Some (JStr p))
               \<longrightarrow> path (parseConfig parse config) = path defaultOptions)
      \<and> ((\<forall>e. prop_of kvs ''env'' \<noteq> Some (JObj e))
               \<longrightarrow> env (parseConfig parse config) = env defaultOptions)
      \<and> (\<forall>e. prop_of kvs ''env'' = Some (JObj e) \<longrightarrow>
            (\<forall>u. prop_of e ''MONGODB_URI'' = Some (JStr u)
                 \<longrightarrow> MONGODB_URI (env (parseConfig parse config)) = u)
          \<and> ((\<forall>u. prop_of e ''MONGODB_URI'' \<noteq> Some (JStr u))
                 \<longrightarrow> MONGODB_URI (env (parseConfig parse config)) = MONGODB_URI (env defaultOptions))
          \<and> (\<forall>n. prop_of e ''MONGODB_DATABASE'' = Some (JStr n)
                 \<longrightarrow> MONGODB_DATABASE (env (parseConfig parse config)) = n)
          \<and> ((\<forall>n. prop_of e ''MONGODB_DATABASE'' \<noteq> Some (JStr n))
                 \<longrightarrow> MONGODB_DATABASE (env (parseConfig parse config))
                     = MONGODB_DATABASE (env defaultOptions))))"
proof (intro conjI allI impI)
  assume "parse config = None"
  then show "parseConfig parse config = defaultOptions" by (simp add: parseConfig_def)
next
  fix v assume "parse config = Some v \<and> \<not> plain_object v"
  then show "parseConfig parse config = defaultOptions"
    by (cases v) (simp_all add: parseConfig_def)
qed (simp_all add: parseConfig_obj string_or_wrong boolean_or_wrong strings_all the_string_JStr lines_or_wrong env_or_wrong)


theorem parseConfig_field_by_field_witness:
  "path (parseConfig
      (\<lambda>c. Some (JObj [(''path'', JNum (123::int)), (''unknownAny'', JBool False),
                         (''env'', JObj [(''MONGODB_URI'', JStr ''DB'')])])) ''cfg'')
     = ''src/__generated__''
   \<and> unknownAny (parseConfig
      (\<lambda>c. Some (JObj [(''path'', JNum (123::int)), (''unknownAny'', JBool False),
                         (''env'', JObj [(''MONGODB_URI'', JStr ''DB'')])])) ''cfg'') = False
   \<and> env (parseConfig
      (\<lambda>c. Some (JObj [(''path'', JNum (123::int)), (''unknownAny'', JBool False),
                         (''env'', JObj [(''MONGODB_URI'', JStr ''DB'')])])) ''cfg'')
     = \<lparr>MONGODB_URI = ''DB'', MONGODB_DATABASE = ''MONGODB_DATABASE''\<rparr>
   \<and> parseConfig (\<lambda>c. None :: int json option) ''cfg'' = defaultOptions"
  using parseConfig_field_by_field
    [of "\<lambda>c. Some (JObj [(''path'', JNum (123::int)), (''unknownAny'', JBool False),
                           (''env'', JObj [(''MONGODB_URI'', JStr ''DB'')])])" "''cfg''"]
    parseConfig_field_by_field [of "\<lambda>c. None :: int json option" "''cfg''"]
  by (simp add: parseConfig_def prop_of_def defaultOptions_def)

end
